theory Spec2Isabelle
  imports Main
begin

section \<open>Strings\<close>

text \<open>
  Python \<open>str\<close> values are sequences of code points. The model uses \<^typ>\<open>string\<close>, whose
  characters are the code points 0..255; the character classes below are Python's
  classes restricted to that range.
\<close>

definition whitespace_chars :: string where
  \<comment> \<open>the code points for which \<open>str.isspace\<close> holds\<close>
  "whitespace_chars =
     [
      CHR 0x09, CHR 0x0A, CHR 0x0B, CHR 0x0C, CHR 0x0D, CHR 0x1C, CHR 0x1D, CHR 0x1E, CHR 0x1F, CHR 0x20,
      CHR 0x85, CHR 0xA0]"

definition isspace :: "char \<Rightarrow> bool" where
  \<comment> \<open>\<open>str.isspace\<close>, also the class \<open>\s\<close> of \<open>re\<close> on \<open>str\<close> patterns\<close>
  "isspace c = (c \<in> set whitespace_chars)"

definition latin1_word_chars :: string where
  \<comment> \<open>the alphanumeric code points from 128 to 255\<close>
  "latin1_word_chars =
     [
      CHR 0xAA, CHR 0xB2, CHR 0xB3, CHR 0xB5, CHR 0xB9, CHR 0xBA, CHR 0xBC, CHR 0xBD, CHR 0xBE, CHR 0xC0,
      CHR 0xC1, CHR 0xC2, CHR 0xC3, CHR 0xC4, CHR 0xC5, CHR 0xC6, CHR 0xC7, CHR 0xC8, CHR 0xC9, CHR 0xCA,
      CHR 0xCB, CHR 0xCC, CHR 0xCD, CHR 0xCE, CHR 0xCF, CHR 0xD0, CHR 0xD1, CHR 0xD2, CHR 0xD3, CHR 0xD4,
      CHR 0xD5, CHR 0xD6, CHR 0xD8, CHR 0xD9, CHR 0xDA, CHR 0xDB, CHR 0xDC, CHR 0xDD, CHR 0xDE, CHR 0xDF,
      CHR 0xE0, CHR 0xE1, CHR 0xE2, CHR 0xE3, CHR 0xE4, CHR 0xE5, CHR 0xE6, CHR 0xE7, CHR 0xE8, CHR 0xE9,
      CHR 0xEA, CHR 0xEB, CHR 0xEC, CHR 0xED, CHR 0xEE, CHR 0xEF, CHR 0xF0, CHR 0xF1, CHR 0xF2, CHR 0xF3,
      CHR 0xF4, CHR 0xF5, CHR 0xF6, CHR 0xF8, CHR 0xF9, CHR 0xFA, CHR 0xFB, CHR 0xFC, CHR 0xFD, CHR 0xFE,
      CHR 0xFF]"

definition word_chars :: string where
  "word_chars =
     ''0123456789ABCDEFGHIJKLMNOPQRSTUVWXYZ_abcdefghijklmnopqrstuvwxyz'' @ latin1_word_chars"

definition isword :: "char \<Rightarrow> bool" where
  \<comment> \<open>the class \<open>\w\<close> of \<open>re\<close> on \<open>str\<close> patterns: alphanumeric or underscore\<close>
  "isword c = (c \<in> set word_chars)"

definition upper_chars :: string where
  \<comment> \<open>the code points that \<open>str.lower\<close> changes\<close>
  "upper_chars =
     ''ABCDEFGHIJKLMNOPQRSTUVWXYZ'' @
     [
      CHR 0xC0, CHR 0xC1, CHR 0xC2, CHR 0xC3, CHR 0xC4, CHR 0xC5, CHR 0xC6, CHR 0xC7, CHR 0xC8, CHR 0xC9,
      CHR 0xCA, CHR 0xCB, CHR 0xCC, CHR 0xCD, CHR 0xCE, CHR 0xCF, CHR 0xD0, CHR 0xD1, CHR 0xD2, CHR 0xD3,
      CHR 0xD4, CHR 0xD5, CHR 0xD6, CHR 0xD8, CHR 0xD9, CHR 0xDA, CHR 0xDB, CHR 0xDC, CHR 0xDD, CHR 0xDE]"

definition lower_chars :: string where
  \<comment> \<open>their images, in the same order\<close>
  "lower_chars =
     ''abcdefghijklmnopqrstuvwxyz'' @
     [
      CHR 0xE0, CHR 0xE1, CHR 0xE2, CHR 0xE3, CHR 0xE4, CHR 0xE5, CHR 0xE6, CHR 0xE7, CHR 0xE8, CHR 0xE9,
      CHR 0xEA, CHR 0xEB, CHR 0xEC, CHR 0xED, CHR 0xEE, CHR 0xEF, CHR 0xF0, CHR 0xF1, CHR 0xF2, CHR 0xF3,
      CHR 0xF4, CHR 0xF5, CHR 0xF6, CHR 0xF8, CHR 0xF9, CHR 0xFA, CHR 0xFB, CHR 0xFC, CHR 0xFD, CHR 0xFE]"

definition char_lower :: "char \<Rightarrow> char" where
  "char_lower c = (case map_of (zip upper_chars lower_chars) c of Some d \<Rightarrow> d | None \<Rightarrow> c)"

lemma char_lower_bits [code]:
  "char_lower (Char b0 b1 b2 b3 b4 b5 b6 b7) =
     (if b6 \<and> \<not> b5 \<and>
         ((\<not> b7 \<and> (b0 \<or> b1 \<or> b2 \<or> b3 \<or> b4) \<and> \<not> (b4 \<and> b3 \<and> (b2 \<or> b1 \<and> b0)))
          \<or> (b7 \<and> \<not> (b0 \<and> b1 \<and> b2 \<and> b4)))
      then Char b0 b1 b2 b3 b4 True b6 b7 else Char b0 b1 b2 b3 b4 b5 b6 b7)"
  by (induct b0; induct b1; induct b2; induct b3; induct b4; induct b5; induct b6; induct b7;
      code_simp)

definition lower :: "string \<Rightarrow> string" where
  \<comment> \<open>\<open>str.lower\<close>\<close>
  "lower s = map char_lower s"

definition strip :: "string \<Rightarrow> string" where
  \<comment> \<open>\<open>str.strip()\<close>\<close>
  "strip s = rev (dropWhile isspace (rev (dropWhile isspace s)))"

definition startswith :: "string \<Rightarrow> string \<Rightarrow> bool" where
  \<comment> \<open>\<open>s.startswith(p)\<close>\<close>
  "startswith s p = (take (length p) s = p)"

definition endswith :: "string \<Rightarrow> string \<Rightarrow> bool" where
  \<comment> \<open>\<open>s.endswith(p)\<close>\<close>
  "endswith s p = (length p \<le> length s \<and> drop (length s - length p) s = p)"

function split_acc :: "string \<Rightarrow> string \<Rightarrow> string \<Rightarrow> string list" where
  "split_acc sep acc s =
     (if s = [] then [rev acc]
      else if sep \<noteq> [] \<and> startswith s sep
           then rev acc # split_acc sep [] (drop (length sep) s)
           else split_acc sep (hd s # acc) (tl s))"
  by pat_completeness auto
termination
  by (relation "measure (\<lambda>(sep, acc, s). length s)") auto

definition split :: "string \<Rightarrow> string \<Rightarrow> string list" where
  \<comment> \<open>\<open>s.split(sep)\<close> for a non-empty separator\<close>
  "split s sep = split_acc sep [] s"

fun join :: "string \<Rightarrow> string list \<Rightarrow> string" where
  \<comment> \<open>\<open>sep.join(xs)\<close>\<close>
  "join sep [] = []"
| "join sep [x] = x"
| "join sep (x # y # ys) = x @ sep @ join sep (y # ys)"

definition newline :: string where
  "newline = [CHR 0x0A]"

definition fence :: string where
  \<comment> \<open>three backquotes\<close>
  "fence = [CHR 0x60, CHR 0x60, CHR 0x60]"


section \<open>Regular expressions (\<open>re\<close>)\<close>

text \<open>
  The patterns of the program are values of \<open>regex\<close>. Every pattern with letters is
  compiled with \<open>re.IGNORECASE\<close>, so a literal matches without regard to case. Repetition
  occurs in the program's patterns only on single character classes.
  \<open>rmatch p s\<close> lists the ways \<open>p\<close> matches a prefix of \<open>s\<close>, in the order in which the
  backtracking matcher tries them; each is the captured groups and the rest of \<open>s\<close>.
  The first element is the match \<open>re\<close> reports.
\<close>

datatype cclass =
    Space                \<comment> \<open>\<open>\s\<close>\<close>
  | Word                 \<comment> \<open>\<open>\w\<close>\<close>
  | Any                  \<comment> \<open>\<open>.\<close> under \<open>re.DOTALL\<close>\<close>
  | Not_in string        \<comment> \<open>\<open>[^...]\<close>\<close>

fun in_class :: "cclass \<Rightarrow> char \<Rightarrow> bool" where
  "in_class Space c = isspace c"
| "in_class Word c = isword c"
| "in_class Any c = True"
| "in_class (Not_in cs) c = (c \<notin> set cs)"

datatype regex =
    Lit string           \<comment> \<open>literal text, case-insensitive\<close>
  | One cclass           \<comment> \<open>one character of a class\<close>
  | Star cclass          \<comment> \<open>\<open>c*\<close>, greedy\<close>
  | Plus cclass          \<comment> \<open>\<open>c+\<close>, greedy\<close>
  | Lazy cclass          \<comment> \<open>\<open>c*?\<close>\<close>
  | Seq regex regex
  | Alt regex regex      \<comment> \<open>\<open>a|b\<close>\<close>
  | Opt regex            \<comment> \<open>\<open>(?:a)?\<close>\<close>
  | Group regex          \<comment> \<open>\<open>(a)\<close>, capturing\<close>
  | Not_ahead regex      \<comment> \<open>\<open>(?!a)\<close>\<close>

fun imatch :: "string \<Rightarrow> string \<Rightarrow> bool" where
  \<comment> \<open>\<open>s\<close> begins with \<open>w\<close>, case-insensitively\<close>
  "imatch [] s = True"
| "imatch (w # ws) [] = False"
| "imatch (w # ws) (c # cs) = (if char_lower c = char_lower w then imatch ws cs else False)"

fun greedy :: "cclass \<Rightarrow> string \<Rightarrow> string list" where
  \<comment> \<open>the rests after \<open>c*\<close>, longest run first\<close>
  "greedy c [] = [[]]"
| "greedy c (x # xs) = (if in_class c x then greedy c xs else []) @ [x # xs]"

fun lazy :: "cclass \<Rightarrow> string \<Rightarrow> string list" where
  \<comment> \<open>the rests after \<open>c*?\<close>, shortest run first\<close>
  "lazy c [] = [[]]"
| "lazy c (x # xs) = (x # xs) # (if in_class c x then lazy c xs else [])"

type_synonym rmatch = "string list \<times> string"

definition then_match :: "rmatch list \<Rightarrow> (string \<Rightarrow> rmatch list) \<Rightarrow> rmatch list" where
  "then_match ms f = concat (map (\<lambda>(g, r). map (\<lambda>(g', r'). (g @ g', r')) (f r)) ms)"

fun rmatch :: "regex \<Rightarrow> string \<Rightarrow> rmatch list" where
  "rmatch (Lit w) s = (if imatch w s then [([], drop (length w) s)] else [])"
| "rmatch (One c) s =
     (case s of [] \<Rightarrow> [] | x # xs \<Rightarrow> if in_class c x then [([], xs)] else [])"
| "rmatch (Star c) s = map (Pair []) (greedy c s)"
| "rmatch (Plus c) s =
     (case s of [] \<Rightarrow> [] | x # xs \<Rightarrow> if in_class c x then map (Pair []) (greedy c xs) else [])"
| "rmatch (Lazy c) s = map (Pair []) (lazy c s)"
| "rmatch (Seq a b) s = then_match (rmatch a s) (rmatch b)"
| "rmatch (Alt a b) s = rmatch a s @ rmatch b s"
| "rmatch (Opt a) s = rmatch a s @ [([], s)]"
| "rmatch (Group a) s = map (\<lambda>(g, r). (take (length s - length r) s # g, r)) (rmatch a s)"
| "rmatch (Not_ahead a) s = (if rmatch a s = [] then [([], s)] else [])"

fun seqs :: "regex list \<Rightarrow> regex" where
  \<comment> \<open>a pattern written as the sequence of its parts\<close>
  "seqs [] = Lit []"
| "seqs [r] = r"
| "seqs (r # rs) = Seq r (seqs rs)"

definition re_match :: "regex \<Rightarrow> string \<Rightarrow> rmatch option" where
  \<comment> \<open>\<open>re.match(p, s)\<close>: the match at the start of \<open>s\<close>\<close>
  "re_match p s = (case rmatch p s of [] \<Rightarrow> None | m # _ \<Rightarrow> Some m)"

fun re_search :: "regex \<Rightarrow> string \<Rightarrow> rmatch option" where
  \<comment> \<open>\<open>re.search(p, s)\<close>: the match at the leftmost position that has one\<close>
  "re_search p [] = re_match p []"
| "re_search p (x # xs) =
     (case re_match p (x # xs) of Some m \<Rightarrow> Some m | None \<Rightarrow> re_search p xs)"

text \<open>
  \<open>re.sub\<close> and \<open>re.findall\<close> scan from the left and resume after each match. None of the
  program's patterns matches the empty string; on an empty match the scan copies one
  character and moves on.
\<close>

function re_sub :: "regex \<Rightarrow> string \<Rightarrow> string \<Rightarrow> string" where
  "re_sub p repl s =
     (case re_match p s of
        None \<Rightarrow> (case s of [] \<Rightarrow> [] | x # xs \<Rightarrow> x # re_sub p repl xs)
      | Some (g, r) \<Rightarrow>
          if length r < length s then repl @ re_sub p repl r
          else (case s of [] \<Rightarrow> repl | x # xs \<Rightarrow> repl @ x # re_sub p repl xs))"
  by pat_completeness auto
termination
  by (relation "measure (\<lambda>(p, repl, s). length s)") auto

function re_findall :: "regex \<Rightarrow> string \<Rightarrow> string list list" where
  \<comment> \<open>the groups of each match\<close>
  "re_findall p s =
     (case re_match p s of
        None \<Rightarrow> (case s of [] \<Rightarrow> [] | x # xs \<Rightarrow> re_findall p xs)
      | Some (g, r) \<Rightarrow>
          if length r < length s then g # re_findall p r
          else (case s of [] \<Rightarrow> [g] | x # xs \<Rightarrow> g # re_findall p xs))"
  by pat_completeness auto
termination
  by (relation "measure (\<lambda>(p, s). length s)") auto

declare re_sub.simps [simp del] re_findall.simps [simp del]


section \<open>Query generation (\<open>auto_analyzer.generate_sql_with_gemini\<close>)\<close>

text \<open>
  The schema context is a dictionary read with \<open>.get(key, default)\<close>; a missing key is
  \<open>None\<close>. An exception is a value carrying its message (\<open>str(e)\<close>).
\<close>

record schema_context =
  columns :: "string list option"
  table_name :: "string option"

datatype exn = Exception string

fun exn_str :: "exn \<Rightarrow> string" where
  "exn_str (Exception m) = m"

text \<open>
  The language-model client (\<open>google.generativeai\<close>) is outside the repository: its
  calls are parameters, each of which may raise. \<open>generate_content m p\<close> stands for
  \<open>m.generate_content(p).text\<close>.
\<close>

record 'm genai =
  configure :: "string \<Rightarrow> exn + unit"
  GenerativeModel :: "string \<Rightarrow> exn + 'm"
  generate_content :: "'m \<Rightarrow> string \<Rightarrow> exn + string"

definition get_columns :: "schema_context \<Rightarrow> string list" where
  \<comment> \<open>\<open>schema_context.get("columns", [])\<close>\<close>
  "get_columns ctx = (case columns ctx of None \<Rightarrow> [] | Some cs \<Rightarrow> cs)"

definition get_table :: "schema_context \<Rightarrow> string \<Rightarrow> string" where
  \<comment> \<open>\<open>schema_context.get("table_name", default)\<close>\<close>
  "get_table ctx dflt = (case table_name ctx of None \<Rightarrow> dflt | Some t \<Rightarrow> t)"

definition avg_query :: "string \<Rightarrow> string" where
  "avg_query t = ''SELECT AVG(marks) AS average_marks FROM '' @ t @ '';''"

definition count_query :: "string \<Rightarrow> string" where
  "count_query t = ''SELECT COUNT(*) AS row_count FROM '' @ t @ '';''"

definition heuristic :: "schema_context \<Rightarrow> string" where
  \<comment> \<open>the branch taken when \<open>not gemini_key\<close>\<close>
  "heuristic ctx =
     (let cols = get_columns ctx; t = get_table ctx ''uploaded_table''
      in if ''marks'' \<in> set (map lower cols) then avg_query t else count_query t)"

definition build_prompt :: "string \<Rightarrow> string \<Rightarrow> string \<Rightarrow> string" where
  "build_prompt tname columns_info nl_query =
     ''You are a SQL expert. Convert the following natural language query to a valid SQLite SQL query.''
     @ newline @ newline
     @ ''Schema:'' @ newline
     @ ''- Table: '' @ tname @ newline
     @ ''- Columns: '' @ columns_info @ newline @ newline
     @ ''Natural language query: '' @ nl_query @ newline @ newline
     @ ''Important:'' @ newline
     @ ''1. Return ONLY the SQL query, nothing else.'' @ newline
     @ ''2. Use SQLite syntax.'' @ newline
     @ ''3. Do not include explanations or markdown code blocks.'' @ newline
     @ ''4. Ensure the query is valid and executable.'' @ newline @ newline
     @ ''SQL:''"

definition select_model :: "'m genai \<Rightarrow> exn + 'm" where
  \<comment> \<open>the nested \<open>try\<close>/\<open>except\<close> that picks the first model that can be built\<close>
  "select_model g =
     (case GenerativeModel g ''gemini-2.0-flash'' of
        Inr m \<Rightarrow> Inr m
      | Inl _ \<Rightarrow>
          (case GenerativeModel g ''gemini-1.5-flash'' of
             Inr m \<Rightarrow> Inr m
           | Inl _ \<Rightarrow> GenerativeModel g ''gemini-pro''))"

definition clean_response :: "string \<Rightarrow> exn + string" where
  \<comment> \<open>post-processing of the model's text; \<open>[1]\<close> raises IndexError on a short list\<close>
  "clean_response text =
     (let q0 = strip text in
      case (if startswith q0 fence
            then (case split q0 fence of
                    _ # q1 # _ \<Rightarrow> Inr (if startswith q1 ''sql'' then drop 3 q1 else q1)
                  | _ \<Rightarrow> Inl (Exception ''list index out of range''))
            else Inr q0) of
        Inl e \<Rightarrow> Inl e
      | Inr q2 \<Rightarrow>
          (let q3 = strip q2 in Inr (if endswith q3 '';'' then q3 else q3 @ '';'')))"

definition model_query :: "exn + 'm genai \<Rightarrow> string \<Rightarrow> schema_context \<Rightarrow> string \<Rightarrow> exn + string" where
  \<comment> \<open>the body of the outer \<open>try\<close>; \<open>Inl\<close> is an exception raised inside it\<close>
  "model_query imp nl_query ctx gemini_key =
     (case imp of
        Inl e \<Rightarrow> Inl e
      | Inr g \<Rightarrow>
          (case configure g gemini_key of
             Inl e \<Rightarrow> Inl e
           | Inr _ \<Rightarrow>
               (case select_model g of
                  Inl e \<Rightarrow> Inl e
                | Inr m \<Rightarrow>
                    (let columns_info = join '', '' (get_columns ctx);
                         tname = get_table ctx ''users'';
                         prompt = build_prompt tname columns_info nl_query
                     in case generate_content g m prompt of
                          Inl e \<Rightarrow> Inl e
                        | Inr text \<Rightarrow> clean_response text))))"

definition generate_sql_with_gemini ::
    "exn + 'm genai \<Rightarrow> string \<Rightarrow> schema_context \<Rightarrow> string \<Rightarrow> string" where
  \<comment> \<open>\<open>imp\<close> is the outcome of \<open>import google.generativeai\<close>\<close>
  "generate_sql_with_gemini imp nl_query ctx gemini_key =
     (if gemini_key = [] then heuristic ctx
      else case model_query imp nl_query ctx gemini_key of
             Inr q \<Rightarrow> q
           | Inl e \<Rightarrow> count_query (get_table ctx ''uploaded_table''))"


section \<open>Query execution (\<open>app.generate_sql\<close>, after generation)\<close>

text \<open>
  \<open>read_sql\<close> stands for \<open>pd.read_sql_query(sql_query, conn)\<close> followed by
  \<open>to_dict(orient="records")\<close> on the request's engine; it returns the rows or raises.
  The response is the JSON payload with its HTTP status. Saving the query to the history
  store happens inside its own \<open>try\<close>/\<open>except\<close> and does not change the response.
\<close>

datatype 'row payload =
    Sql_result string "'row list"   \<comment> \<open>\<open>{"sql": ..., "result": [...]}\<close>\<close>
  | Sql_error string string         \<comment> \<open>\<open>{"sql": ..., "error": ...}\<close>\<close>

definition execute_generated ::
    "(string \<Rightarrow> exn + 'row list) \<Rightarrow> string \<Rightarrow> 'row payload \<times> nat" where
  "execute_generated read_sql sql_query =
     (case read_sql sql_query of
        Inl e \<Rightarrow> (Sql_error sql_query (''SQL execution failed: '' @ exn_str e), 500)
      | Inr result_rows \<Rightarrow> (Sql_result sql_query result_rows, 200))"

definition generate_and_execute ::
    "exn + 'm genai \<Rightarrow> (string \<Rightarrow> exn + 'row list) \<Rightarrow> string \<Rightarrow> schema_context \<Rightarrow> string
       \<Rightarrow> 'row payload \<times> nat" where
  "generate_and_execute imp read_sql nl_query ctx gemini_key =
     execute_generated read_sql (generate_sql_with_gemini imp nl_query ctx gemini_key)"


section \<open>Loading a schema (\<open>auto_analyzer.load_sql_schema_into_sqlite\<close>)\<close>

text \<open>
  The function reads the file with \<open>readlines\<close>; here its argument is the text of the
  file as Python decodes it (line ends are \<open>\n\<close>). The statements are run on the
  request's SQLite connection, which is outside the repository: \<open>execute\<close> and \<open>commit\<close>
  are parameters that return the connection's new state and the exception raised, if any.
\<close>

fun readlines_acc :: "string \<Rightarrow> string \<Rightarrow> string list" where
  "readlines_acc acc [] = (if acc = [] then [] else [rev acc])"
| "readlines_acc acc (c # cs) =
     (if c = CHR 0x0A then rev (c # acc) # readlines_acc [] cs else readlines_acc (c # acc) cs)"

definition readlines :: "string \<Rightarrow> string list" where
  \<comment> \<open>\<open>f.readlines()\<close>: the lines, each with its line end\<close>
  "readlines text = readlines_acc [] text"

definition use_re :: regex where
  \<comment> \<open>\<open>\s*(CREATE\s+DATABASE|USE)\s+\<close>\<close>
  "use_re =
     seqs [Star Space,
           Group (Alt (seqs [Lit ''CREATE'', Plus Space, Lit ''DATABASE'']) (Lit ''USE'')),
           Plus Space]"

definition enum_re :: regex where
  \<comment> \<open>\<open>ENUM\s*\([^)]*\)\<close>\<close>
  "enum_re = seqs [Lit ''ENUM'', Star Space, Lit ''('', Star (Not_in '')''), Lit '')'']"

definition auto_increment_re :: regex where
  \<comment> \<open>\<open>AUTO_INCREMENT\<close>\<close>
  "auto_increment_re = Lit ''AUTO_INCREMENT''"

definition int_autoincrement_re :: regex where
  \<comment> \<open>\<open>INT\s+AUTOINCREMENT\s+PRIMARY\s+KEY\<close>\<close>
  "int_autoincrement_re =
     seqs [Lit ''INT'', Plus Space, Lit ''AUTOINCREMENT'', Plus Space, Lit ''PRIMARY'',
           Plus Space, Lit ''KEY'']"

definition unique_re :: regex where
  \<comment> \<open>\<open>\s+UNIQUE(?!\s+KEY)\<close>\<close>
  "unique_re = seqs [Plus Space, Lit ''UNIQUE'', Not_ahead (Seq (Plus Space) (Lit ''KEY''))]"

definition alter_add_re :: regex where
  \<comment> \<open>\<open>ALTER TABLE\s+\w+\s+ADD[^;]*;\<close>\<close>
  "alter_add_re =
     seqs [Lit ''ALTER TABLE'', Plus Space, Plus Word, Plus Space, Lit ''ADD'',
           Star (Not_in '';''), Lit '';'']"

definition create_index_re :: regex where
  \<comment> \<open>\<open>CREATE INDEX[^;]*;\<close>\<close>
  "create_index_re = seqs [Lit ''CREATE INDEX'', Star (Not_in '';''), Lit '';'']"

definition unique_key_re :: regex where
  \<comment> \<open>\<open>,\s*UNIQUE\s+KEY\s+[^,)]*\<close>\<close>
  "unique_key_re =
     seqs [Lit '','', Star Space, Lit ''UNIQUE'', Plus Space, Lit ''KEY'', Plus Space,
           Star (Not_in '',)'')]"

definition key_re :: regex where
  \<comment> \<open>\<open>,\s*KEY\s+[^,)]*\<close>\<close>
  "key_re = seqs [Lit '','', Star Space, Lit ''KEY'', Plus Space, Star (Not_in '',)'')]"

definition constraint_re :: regex where
  \<comment> \<open>\<open>,\s*CONSTRAINT[^,)]*\<close>\<close>
  "constraint_re = seqs [Lit '','', Star Space, Lit ''CONSTRAINT'', Star (Not_in '',)'')]"

definition clean_line :: "string \<Rightarrow> string option" where
  \<comment> \<open>the body of the loop over the lines; \<open>None\<close> is \<open>continue\<close>\<close>
  "clean_line line =
     (if re_match use_re line \<noteq> None then None
      else
        let l1 = re_sub enum_re ''TEXT'' line;
            l2 = re_sub auto_increment_re ''AUTOINCREMENT'' l1;
            l3 = re_sub int_autoincrement_re ''INTEGER PRIMARY KEY AUTOINCREMENT'' l2;
            l4 = re_sub unique_re [] l3
        in Some l4)"

definition cleaned_lines :: "string \<Rightarrow> string list" where
  "cleaned_lines text = List.map_filter clean_line (readlines text)"

definition sql_text :: "string \<Rightarrow> string" where
  \<comment> \<open>the translated text that is split into statements\<close>
  "sql_text text =
     (let t0 = concat (cleaned_lines text);
          t1 = re_sub alter_add_re [] t0;
          t2 = re_sub create_index_re [] t1;
          t3 = re_sub unique_key_re [] t2;
          t4 = re_sub key_re [] t3;
          t5 = re_sub constraint_re [] t4
      in t5)"

record 'db connection =
  execute :: "string \<Rightarrow> 'db \<Rightarrow> exn option \<times> 'db"
  commit :: "'db \<Rightarrow> exn option \<times> 'db"

definition try_statement :: "'db connection \<Rightarrow> string \<Rightarrow> 'db \<Rightarrow> exn option \<times> 'db" where
  \<comment> \<open>the body of the \<open>try\<close>: \<open>conn.execute(stmt); conn.commit()\<close>\<close>
  "try_statement conn stmt db =
     (case execute conn stmt db of
        (Some e, db1) \<Rightarrow> (Some e, db1)
      | (None, db1) \<Rightarrow> commit conn db1)"

definition run_statement :: "'db connection \<Rightarrow> string \<Rightarrow> 'db \<Rightarrow> exn option \<times> 'db" where
  \<comment> \<open>the \<open>try\<close> with its handler \<open>except Exception: pass\<close>\<close>
  "run_statement conn stmt db =
     (case try_statement conn stmt db of
        (Some e, db1) \<Rightarrow> (None, db1)
      | (None, db1) \<Rightarrow> (None, db1))"

definition runnable :: "string \<Rightarrow> bool" where
  \<comment> \<open>\<open>stmt and not stmt.startswith("--")\<close>\<close>
  "runnable stmt = (stmt \<noteq> [] \<and> \<not> startswith stmt ''--'')"

fun run_statements :: "'db connection \<Rightarrow> string list \<Rightarrow> 'db \<Rightarrow> exn option \<times> 'db" where
  \<comment> \<open>the loop over the statements; an exception that leaves an iteration ends the loop\<close>
  "run_statements conn [] db = (None, db)"
| "run_statements conn (s # ss) db =
     (let stmt = strip s
      in if runnable stmt
         then (case run_statement conn stmt db of
                 (Some e, db1) \<Rightarrow> (Some e, db1)
               | (None, db1) \<Rightarrow> run_statements conn ss db1)
         else run_statements conn ss db)"

definition load_sql_schema_into_sqlite ::
    "'db connection \<Rightarrow> string \<Rightarrow> 'db \<Rightarrow> exn option \<times> 'db" where
  "load_sql_schema_into_sqlite conn text db =
     run_statements conn (split (sql_text text) '';'') db"


section \<open>Table-name inference (\<open>auto_analyzer.infer_table_name_from_sql\<close>)\<close>

definition create_table_re :: regex where
  \<comment> \<open>\<open>CREATE TABLE\s+(?:IF NOT EXISTS\s+)?(\w+)\<close>\<close>
  "create_table_re =
     seqs [Lit ''CREATE TABLE'', Plus Space,
           Opt (Seq (Lit ''IF NOT EXISTS'') (Plus Space)), Group (Plus Word)]"

definition group1 :: "rmatch \<Rightarrow> string" where
  \<comment> \<open>\<open>m.group(1)\<close>\<close>
  "group1 m = (case fst m of [] \<Rightarrow> [] | g # _ \<Rightarrow> g)"

definition infer_table_name_from_sql :: "string \<Rightarrow> string" where
  "infer_table_name_from_sql text =
     (case re_search create_table_re text of
        Some m \<Rightarrow> group1 m
      | None \<Rightarrow> ''uploaded_table'')"


section \<open>Schema extraction (\<open>file_extraction\<close>)\<close>

text \<open>
  \<open>pandas.read_csv\<close> is outside the repository. Its result is a frame: the column labels
  it takes from the header row and the data rows, in file order.
\<close>

record 'v frame =
  frame_columns :: "string list"
  frame_rows :: "'v list list"

record 'v csv_schema =
  csv_columns :: "string list"
  rows :: "(string \<times> 'v) list list"
  row_count :: nat

definition to_record :: "string list \<Rightarrow> 'v list \<Rightarrow> (string \<times> 'v) list" where
  \<comment> \<open>one row of \<open>to_dict(orient="records")\<close>\<close>
  "to_record cols row = zip cols row"

definition extract_csv :: "(string \<Rightarrow> exn + 'v frame) \<Rightarrow> string \<Rightarrow> exn + 'v csv_schema" where
  "extract_csv read_csv file_path =
     (case read_csv file_path of
        Inl e \<Rightarrow> Inl e
      | Inr df \<Rightarrow>
          Inr \<lparr>csv_columns = frame_columns df,
               rows = map (to_record (frame_columns df)) (take 10 (frame_rows df)),
               row_count = length (frame_rows df)\<rparr>)"














section \<open>Notions used in the statements\<close>

datatype event = Executed string | Committed

definition recorder :: "(string \<Rightarrow> bool) \<Rightarrow> event list connection" where
  \<comment> \<open>an engine whose state is the list of the calls it has received; \<open>execute\<close> raises on
      the statements for which \<open>fails\<close> holds\<close>
  "recorder fails =
     \<lparr>execute = (\<lambda>stmt log. (if fails stmt then Some (Exception ''error'') else None,
                               log @ [Executed stmt])),
      commit = (\<lambda>log. (None, log @ [Committed]))\<rparr>"

definition rejects :: "cclass \<Rightarrow> (string \<Rightarrow> rmatch list) \<Rightarrow> bool" where
  \<comment> \<open>\<open>f\<close> matches no text that begins with a character of the class\<close>
  "rejects c f = (\<forall>x xs. in_class c x \<longrightarrow> f (x # xs) = [])"

definition name_follows :: "string \<Rightarrow> bool" where
  \<comment> \<open>the text begins with whitespace followed by a word character\<close>
  "name_follows r =
     (r \<noteq> [] \<and> isspace (hd r) \<and>
      (let r' = dropWhile isspace r in r' \<noteq> [] \<and> isword (hd r')))"

definition create_table_at :: "string \<Rightarrow> bool" where
  \<comment> \<open>the text begins with \<open>CREATE TABLE\<close>, whitespace and a name\<close>
  "create_table_at s = (imatch ''CREATE TABLE'' s \<and> name_follows (drop 12 s))"

definition if_not_exists_at :: "string \<Rightarrow> bool" where
  \<comment> \<open>the text begins with \<open>IF NOT EXISTS\<close>, whitespace and a name\<close>
  "if_not_exists_at s = (imatch ''IF NOT EXISTS'' s \<and> name_follows (drop 13 s))"

fun mentions_create_table :: "string \<Rightarrow> bool" where
  \<comment> \<open>a \<open>CREATE TABLE\<close> statement begins somewhere in the text\<close>
  "mentions_create_table [] = False"
| "mentions_create_table (x # xs) = (create_table_at (x # xs) \<or> mentions_create_table xs)"

fun create_table_within :: "nat \<Rightarrow> string \<Rightarrow> bool" where
  \<comment> \<open>a \<open>CREATE TABLE\<close> statement begins at one of the first \<open>n\<close> positions\<close>
  "create_table_within 0 s = False"
| "create_table_within (Suc n) [] = False"
| "create_table_within (Suc n) (x # xs) = (create_table_at (x # xs) \<or> create_table_within n xs)"

definition table_name_at :: "string \<Rightarrow> string" where
  \<comment> \<open>the name of the statement that begins the text: the word after the optional
      \<open>IF NOT EXISTS\<close> clause\<close>
  "table_name_at s =
     (let r = dropWhile isspace (drop 12 s)
      in if if_not_exists_at r then takeWhile isword (dropWhile isspace (drop 13 r))
         else takeWhile isword r)"










section \<open>Properties of query generation and execution\<close>

text \<open>
  C1. Without a model credential (an empty key), the generated query is the averaging
  query over \<open>marks\<close> when some column name lower-cases to \<open>marks\<close>, and the row-count
  query otherwise, over the context's table name; the natural-language text and the
  model client play no part.
\<close>

theorem heuristic_without_credential:
  "generate_sql_with_gemini imp nl_query
       \<lparr>columns = Some cols, table_name = Some t\<rparr> [] =
     (if (\<exists>c \<in> set cols. lower c = ''marks'')
      then ''SELECT AVG(marks) AS average_marks FROM '' @ t @ '';''
      else ''SELECT COUNT(*) AS row_count FROM '' @ t @ '';'')"
proof -
  have "(''marks'' \<in> set (map lower cols)) = (\<exists>c \<in> set cols. lower c = ''marks'')"
    unfolding set_map image_iff by (rule bex_cong [OF refl]) (rule eq_commute)
  then show ?thesis
    by (simp add: generate_sql_with_gemini_def heuristic_def get_columns_def get_table_def
        avg_query_def count_query_def)
qed

theorem heuristic_without_credential_witness:
  "generate_sql_with_gemini (Inl (Exception ''no module'')) ''average of marks''
       \<lparr>columns = Some [''id'', ''name'', ''Marks''], table_name = Some ''uploaded_table''\<rparr> []
     = ''SELECT AVG(marks) AS average_marks FROM uploaded_table;''
   \<and> generate_sql_with_gemini (Inl (Exception ''no module'')) ''how many rows''
       \<lparr>columns = Some [''id'', ''name''], table_name = Some ''t''\<rparr> []
     = ''SELECT COUNT(*) AS row_count FROM t;''"
proof -
  have a: "\<exists>c \<in> set [''id'', ''name'', ''Marks'']. lower c = ''marks''"
    by code_simp
  have b: "\<not> (\<exists>c \<in> set [''id'', ''name'']. lower c = ''marks'')"
    by code_simp
  show ?thesis
    using a b
      heuristic_without_credential
        [of "Inl (Exception ''no module'')" "''average of marks''"
            "[''id'', ''name'', ''Marks'']" "''uploaded_table''"]
      heuristic_without_credential
        [of "Inl (Exception ''no module'')" "''how many rows''" "[''id'', ''name'']" "''t''"]
    by simp
qed

text \<open>
  C2. With a credential present and the model call raising, no exception leaves the
  function; the query returned is the row-count query whatever the columns are. At the
  columns \<open>[marks]\<close> the averaging query of the heuristic is not produced.
\<close>

theorem model_failure_returns_count_query:
  "generate_sql_with_gemini
       (Inr \<lparr>configure = (\<lambda>k. Inr ()), GenerativeModel = (\<lambda>n. Inr ()),
             generate_content = (\<lambda>m p. Inl (Exception ''quota exceeded''))\<rparr>)
       ''average marks'' \<lparr>columns = Some [''marks''], table_name = Some ''t''\<rparr> ''key''
     = ''SELECT COUNT(*) AS row_count FROM t;''
   \<and> heuristic \<lparr>columns = Some [''marks''], table_name = Some ''t''\<rparr>
     = ''SELECT AVG(marks) AS average_marks FROM t;''"
  by code_simp

text \<open>
  C3. When executing the generated query fails, the response carries the attempted query
  text unchanged and the message \<open>SQL execution failed: \<close> followed by the engine's
  message, with status 500; the message is not empty and the response is not a success
  payload.
\<close>

theorem execution_failure_is_reported:
  assumes "read_sql (generate_sql_with_gemini imp nl_query ctx gemini_key) = Inl e"
  shows "\<exists>msg. generate_and_execute imp read_sql nl_query ctx gemini_key
                 = (Sql_error (generate_sql_with_gemini imp nl_query ctx gemini_key) msg, 500)
             \<and> msg = ''SQL execution failed: '' @ exn_str e \<and> msg \<noteq> []
             \<and> (\<forall>q rows st. generate_and_execute imp read_sql nl_query ctx gemini_key
                                \<noteq> (Sql_result q rows, st))"
  using assms by (simp add: generate_and_execute_def execute_generated_def)

theorem execution_failure_is_reported_witness:
  "generate_and_execute (Inl (Exception ''no module''))
       (\<lambda>q. (Inl (Exception ''no such column: marks'') :: exn + nat list))
       ''average'' \<lparr>columns = Some [''marks''], table_name = Some ''t''\<rparr> []
     = (Sql_error ''SELECT AVG(marks) AS average_marks FROM t;''
          ''SQL execution failed: no such column: marks'', 500)"
proof -
  have q: "generate_sql_with_gemini (Inl (Exception ''no module'')) ''average''
             \<lparr>columns = Some [''marks''], table_name = Some ''t''\<rparr> []
           = ''SELECT AVG(marks) AS average_marks FROM t;''"
    by code_simp
  show ?thesis
    using execution_failure_is_reported
      [of "\<lambda>q. (Inl (Exception ''no such column: marks'') :: exn + nat list)"
          "Inl (Exception ''no module'')" "''average''"
          "\<lparr>columns = Some [''marks''], table_name = Some ''t''\<rparr>" "[]"
          "Exception ''no such column: marks''"]
    by (auto simp: q)
qed

section \<open>Properties of schema loading and of tabular extraction\<close>

lemma run_statement_unfold:
  "run_statement conn stmt db =
     (None, case execute conn stmt db of
              (Some e, db1) \<Rightarrow> db1
            | (None, db1) \<Rightarrow> snd (commit conn db1))"
  by (simp add: run_statement_def try_statement_def split: prod.splits option.splits)

lemma runnable_iff: "runnable s \<longleftrightarrow> s \<noteq> [] \<and> take 2 s \<noteq> ''--''"
  by (simp add: runnable_def startswith_def numeral_2_eq_2)

lemma run_statements_unfold:
  "run_statements conn ss db =
     (None,
      foldl (\<lambda>d s. case execute conn s d of
                      (Some e, d1) \<Rightarrow> d1
                    | (None, d1) \<Rightarrow> snd (commit conn d1))
        db (filter (\<lambda>s. s \<noteq> [] \<and> take 2 s \<noteq> ''--'') (map strip ss)))"
proof (induction ss arbitrary: db)
  case Nil
  show ?case by simp
next
  case (Cons s ss)
  show ?case
    by (simp add: Let_def run_statement_unfold Cons.IH runnable_iff)
qed

text \<open>
  C9, as stated, fails. The translated text is split at \<open>;\<close> and a chunk is skipped when,
  stripped, it begins with \<open>--\<close>. The text below is its own translation and contains the
  statement \<open>CREATE TABLE users (id INT)\<close> after a comment line; the chunk begins with the
  comment, so the engine receives no call at all. Without the comment line the statement
  is executed and committed.
\<close>

theorem comment_led_statement_is_skipped:
  "sql_text (''-- users'' @ newline @ ''CREATE TABLE users (id INT);'')
     = ''-- users'' @ newline @ ''CREATE TABLE users (id INT);''
   \<and> load_sql_schema_into_sqlite (recorder (\<lambda>s. False))
       (''-- users'' @ newline @ ''CREATE TABLE users (id INT);'') [] = (None, [])
   \<and> load_sql_schema_into_sqlite (recorder (\<lambda>s. False))
       ''CREATE TABLE users (id INT);'' [] = (None, [Executed ''CREATE TABLE users (id INT)'', Committed])"
  by code_simp

text \<open>
  C9, amended. Loading a schema never ends with an exception. The engine is left in the
  state reached by going, in order, through the chunks of the translated text (the pieces
  between \<open>;\<close>, stripped) that are non-empty and do not begin with \<open>--\<close>: each is passed to
  \<open>execute\<close> on the state left by the chunks before it, and \<open>commit\<close> follows when \<open>execute\<close>
  did not raise; an exception of either call is dropped and the next chunk is tried.
\<close>

theorem load_attempts_every_chunk:
  "load_sql_schema_into_sqlite conn text db =
     (None,
      foldl (\<lambda>d s. case execute conn s d of
                      (Some e, d1) \<Rightarrow> d1
                    | (None, d1) \<Rightarrow> snd (commit conn d1))
        db (filter (\<lambda>s. s \<noteq> [] \<and> take 2 s \<noteq> ''--'')
              (map strip (split (sql_text text) '';''))))"
  by (simp add: load_sql_schema_into_sqlite_def run_statements_unfold)

theorem load_attempts_every_chunk_witness:
  "load_sql_schema_into_sqlite (recorder (\<lambda>s. s = ''DROP x''))
     (''CREATE TABLE a (x INT);'' @ newline @ ''DROP x;'' @ newline @ ''-- done;''
        @ newline @ ''CREATE TABLE b (y INT);'' @ newline) []
   = (None, [Executed ''CREATE TABLE a (x INT)'', Committed, Executed ''DROP x'',
             Executed ''CREATE TABLE b (y INT)'', Committed])"
proof -
  have "foldl (\<lambda>d s. case execute (recorder (\<lambda>s. s = ''DROP x'')) s d of
                      (Some e, d1) \<Rightarrow> d1
                    | (None, d1) \<Rightarrow> snd (commit (recorder (\<lambda>s. s = ''DROP x'')) d1))
        [] (filter (\<lambda>s. s \<noteq> [] \<and> take 2 s \<noteq> ''--'')
              (map strip (split (sql_text (''CREATE TABLE a (x INT);'' @ newline @ ''DROP x;'' @ newline @ ''-- done;''
        @ newline @ ''CREATE TABLE b (y INT);'' @ newline)) '';'')))
      = [Executed ''CREATE TABLE a (x INT)'', Committed, Executed ''DROP x'',
             Executed ''CREATE TABLE b (y INT)'', Committed]"
    by code_simp
  then show ?thesis
    by (simp only: load_attempts_every_chunk)
qed

text \<open>
  What \<open>extract_csv\<close> returns for the frame that the reader delivers. The reader is
  \<open>pandas.read_csv\<close>; how it obtains labels and rows from the text of the file is not part
  of the program.
\<close>

lemma extract_csv_of_frame:
  assumes "read_csv file_path = Inr df"
  shows "extract_csv read_csv file_path =
           Inr \<lparr>csv_columns = frame_columns df,
                rows = map (zip (frame_columns df)) (take 10 (frame_rows df)),
                row_count = length (frame_rows df)\<rparr>"
  using assms by (simp add: extract_csv_def to_record_def)


section \<open>Facts about characters and the matcher\<close>

lemma upper_chars_word: "set upper_chars \<subseteq> set word_chars"
  by code_simp

lemma lower_chars_word: "set lower_chars \<subseteq> set word_chars"
  by code_simp

lemma space_not_word: "isspace c \<Longrightarrow> \<not> isword c"
proof -
  have "list_all (\<lambda>c. \<not> isword c) whitespace_chars" by code_simp
  then show "isspace c \<Longrightarrow> \<not> isword c"
    by (simp add: isspace_def list_all_iff)
qed

lemma char_lower_cases:
  "char_lower c = c \<or> (c \<in> set upper_chars \<and> char_lower c \<in> set lower_chars)"
proof (cases "map_of (zip upper_chars lower_chars) c")
  case None
  then show ?thesis by (simp add: char_lower_def)
next
  case (Some d)
  then have "(c, d) \<in> set (zip upper_chars lower_chars)" by (rule map_of_SomeD)
  then have "c \<in> set upper_chars \<and> d \<in> set lower_chars"
    by (auto dest: set_zip_leftD set_zip_rightD)
  with Some show ?thesis by (simp add: char_lower_def)
qed

lemma isword_char_lower: "isword (char_lower c) = isword c"
  using char_lower_cases [of c] upper_chars_word lower_chars_word
  by (auto simp: isword_def)

lemma isspace_char_lower: "isspace (char_lower c) = isspace c"
  using char_lower_cases [of c] upper_chars_word lower_chars_word space_not_word [of c]
    space_not_word [of "char_lower c"]
  by (auto simp: isword_def)

lemma char_lower_eq_nonletter:
  "d \<notin> set lower_chars \<Longrightarrow> d \<notin> set upper_chars \<Longrightarrow> char_lower c = d \<longleftrightarrow> c = d"
  using char_lower_cases [of c] char_lower_cases [of d] by auto


lemma then_match_Nil [simp]: "then_match [] f = []"
  by (simp add: then_match_def)

lemma then_match_Cons:
  "then_match ((g, r) # ms) f = map (\<lambda>(g', r'). (g @ g', r')) (f r) @ then_match ms f"
  by (simp add: then_match_def)

lemma then_match_append: "then_match (a @ b) f = then_match a f @ then_match b f"
  by (simp add: then_match_def)

lemma then_match_single [simp]: "then_match [([], r)] f = f r"
  by (simp add: then_match_def)

lemma then_match_Pair: "then_match (map (Pair []) rs) f = concat (map f rs)"
  by (induction rs) (simp_all add: then_match_Cons)

lemma then_match_map:
  "then_match (map (\<lambda>(g, r). (h g, k r)) ms) f
     = concat (map (\<lambda>(g, r). map (\<lambda>(g', r'). (h g @ g', r')) (f (k r))) ms)"
  by (induction ms) (auto simp: then_match_Cons then_match_def)

lemma then_match_assoc:
  "then_match (then_match ms f) g = then_match ms (\<lambda>r. then_match (f r) g)"
proof (induction ms)
  case Nil
  show ?case by simp
next
  case (Cons m ms)
  obtain a r where m: "m = (a, r)" by (cases m)
  have "then_match (map (\<lambda>(g', r'). (a @ g', r')) xs) g
        = map (\<lambda>(g', r'). (a @ g', r')) (then_match xs g)" for xs
    by (induction xs) (auto simp: then_match_Cons)
  then show ?case
    by (simp add: m then_match_Cons then_match_append Cons.IH)
qed

lemma greedy_concat:
  assumes "rejects c f"
  shows "concat (map f (greedy c s)) = f (dropWhile (in_class c) s)"
proof (induction s)
  case Nil
  show ?case by simp
next
  case (Cons x xs)
  then show ?case using assms by (simp add: rejects_def)
qed

lemma greedy_hd: "\<exists>rs. greedy c s = dropWhile (in_class c) s # rs"
  by (induction s) auto

lemma greedy_avoid:
  "\<not> in_class c d \<Longrightarrow> greedy c (a @ d # t) = map (\<lambda>r. r @ d # t) (greedy c a)"
  by (induction a) auto

lemma greedy_suffix:
  "r \<in> set (greedy c s) \<Longrightarrow> \<exists>p. s = p @ r \<and> list_all (in_class c) p"
proof (induction s)
  case Nil
  then show ?case by simp
next
  case (Cons x xs)
  show ?case
  proof (cases "r = x # xs")
    case True
    then show ?thesis by simp
  next
    case False
    with Cons.prems have c: "in_class c x" and "r \<in> set (greedy c xs)"
      by (auto split: if_splits)
    with Cons.IH obtain p where "xs = p @ r" "list_all (in_class c) p" by blast
    with c have "x # xs = (x # p) @ r \<and> list_all (in_class c) (x # p)" by simp
    then show ?thesis by blast
  qed
qed

lemma rmatch_Seq_Lit:
  "rmatch (Seq (Lit w) r) s = (if imatch w s then rmatch r (drop (length w) s) else [])"
  by simp

lemma rmatch_Seq_Star:
  "rejects c (rmatch r) \<Longrightarrow> rmatch (Seq (Star c) r) s = rmatch r (dropWhile (in_class c) s)"
  by (simp add: then_match_Pair greedy_concat)

lemma rmatch_Seq_Plus:
  "rejects c (rmatch r) \<Longrightarrow>
   rmatch (Seq (Plus c) r) s =
     (if s \<noteq> [] \<and> in_class c (hd s) then rmatch r (dropWhile (in_class c) s) else [])"
  by (cases s) (simp_all add: then_match_Pair greedy_concat)

lemma imatch_iff:
  "imatch w s \<longleftrightarrow> length w \<le> length s \<and> lower (take (length w) s) = lower w"
  by (induction w s rule: imatch.induct) (auto simp: lower_def)

lemma imatch_hd: "imatch (w # ws) s \<Longrightarrow> s \<noteq> [] \<and> char_lower (hd s) = char_lower w"
  by (cases s) (auto split: if_splits)

lemma imatch_append: "imatch w s \<Longrightarrow> imatch w (s @ t)"
  by (induction w s rule: imatch.induct) (auto split: if_splits)

lemma in_class_fun: "in_class Word = isword" "in_class Space = isspace"
  by (rule ext, simp)+

lemma rmatch_Seq_assoc: "rmatch (Seq (Seq a b) c) s = rmatch (Seq a (Seq b c)) s"
proof -
  have "(\<lambda>r. then_match (rmatch b r) (rmatch c)) = rmatch (Seq b c)"
    by (rule ext) simp
  then show ?thesis by (simp add: then_match_assoc)
qed

lemma rmatch_Seq_Opt: "rmatch (Seq (Opt a) b) s = rmatch (Seq a b) s @ rmatch b s"
  by (simp add: then_match_append)

lemma take_length_dropWhile: "take (length s - length (dropWhile P s)) s = takeWhile P s"
proof -
  have "length s - length (dropWhile P s) = length (takeWhile P s)"
    by (metis add_diff_cancel_right' length_append takeWhile_dropWhile_id)
  then show ?thesis
    by (metis append_eq_conv_conj takeWhile_dropWhile_id)
qed

lemma rmatch_name_Nil: "rmatch (Group (Plus Word)) s = [] \<longleftrightarrow> s = [] \<or> \<not> isword (hd s)"
proof (cases s)
  case Nil
  then show ?thesis by simp
next
  case (Cons x xs)
  obtain rs where "greedy Word xs = dropWhile (in_class Word) xs # rs"
    using greedy_hd [of Word xs] by auto
  then show ?thesis using Cons by simp
qed

lemma rmatch_name_hd:
  assumes "s \<noteq> []" "isword (hd s)"
  shows "\<exists>ms. rmatch (Group (Plus Word)) s = ([takeWhile isword s], dropWhile isword s) # ms"
proof -
  obtain x xs where s: "s = x # xs" using assms(1) by (cases s) auto
  obtain rs where g: "greedy Word xs = dropWhile isword xs # rs"
    using greedy_hd [of Word xs] by (auto simp: in_class_fun)
  have "take (length s - length (dropWhile isword s)) s = takeWhile isword s"
    by (rule take_length_dropWhile)
  then show ?thesis using assms(2) s g by simp
qed

lemma rejects_name: "rejects Space (rmatch (Group (Plus Word)))"
  by (simp add: rejects_def space_not_word)

lemma not_space_i: "\<not> isspace CHR ''i''" "\<not> isspace CHR ''c''"
  by code_simp+

lemma word_i: "isword CHR ''i''"
  by code_simp

lemma lower_IC: "char_lower CHR ''I'' = CHR ''i''" "char_lower CHR ''C'' = CHR ''c''"
  by code_simp+

lemma imatch_not_space:
  assumes "imatch (w # ws) s" "\<not> isspace (char_lower w)"
  shows "s \<noteq> [] \<and> \<not> isspace (hd s)"
  using imatch_hd [OF assms(1)] assms(2) isspace_char_lower [of "hd s"] by simp

lemma imatch_word:
  assumes "imatch (w # ws) s" "isword (char_lower w)"
  shows "s \<noteq> [] \<and> isword (hd s)"
  using imatch_hd [OF assms(1)] assms(2) isword_char_lower [of "hd s"] by simp

lemma len_words: "length ''CREATE TABLE'' = 12" "length ''IF NOT EXISTS'' = 13"
  by simp_all

lemma rmatch_opt_name:
  "rmatch (Seq (Opt (Seq (Lit ''IF NOT EXISTS'') (Plus Space))) (Group (Plus Word))) r =
     (if imatch ''IF NOT EXISTS'' r \<and> drop 13 r \<noteq> [] \<and> isspace (hd (drop 13 r))
      then rmatch (Group (Plus Word)) (dropWhile isspace (drop 13 r)) else [])
     @ rmatch (Group (Plus Word)) r"
  by (simp only: rmatch_Seq_Opt rmatch_Seq_assoc rmatch_Seq_Lit rmatch_Seq_Plus [OF rejects_name]
        len_words in_class_fun if_if_eq_conj)

lemma ine_hd:
  assumes "imatch ''IF NOT EXISTS'' r"
  shows "r \<noteq> [] \<and> isword (hd r) \<and> \<not> isspace (hd r)"
  using imatch_word [OF assms] imatch_not_space [OF assms]
  by (simp add: lower_IC word_i not_space_i)

lemma rejects_opt_name:
  "rejects Space (rmatch (Seq (Opt (Seq (Lit ''IF NOT EXISTS'') (Plus Space))) (Group (Plus Word))))"
  unfolding rejects_def
proof (intro allI impI)
  fix x xs assume "in_class Space x"
  then have sp: "isspace x" by simp
  then have "\<not> imatch ''IF NOT EXISTS'' (x # xs)" using ine_hd [of "x # xs"] by auto
  moreover have "rmatch (Group (Plus Word)) (x # xs) = []"
    using sp by (simp add: rmatch_name_Nil space_not_word)
  ultimately show "rmatch (Seq (Opt (Seq (Lit ''IF NOT EXISTS'') (Plus Space))) (Group (Plus Word))) (x # xs) = []"
    by (simp only: rmatch_opt_name) simp
qed

lemma create_table_re_unfold:
  "rmatch create_table_re s =
     (if imatch ''CREATE TABLE'' s \<and> drop 12 s \<noteq> [] \<and> isspace (hd (drop 12 s))
      then rmatch (Seq (Opt (Seq (Lit ''IF NOT EXISTS'') (Plus Space))) (Group (Plus Word)))
             (dropWhile isspace (drop 12 s))
      else [])"
  unfolding create_table_re_def seqs.simps
  by (simp only: rmatch_Seq_Lit rmatch_Seq_Plus [OF rejects_opt_name] len_words in_class_fun
        if_if_eq_conj)

lemma opt_name_Nil:
  "rmatch (Seq (Opt (Seq (Lit ''IF NOT EXISTS'') (Plus Space))) (Group (Plus Word))) r = []
     \<longleftrightarrow> r = [] \<or> \<not> isword (hd r)"
  using ine_hd [of r] by (auto simp only: rmatch_opt_name rmatch_name_Nil append_is_Nil_conv split: if_splits)

lemma create_table_re_Nil: "rmatch create_table_re s = [] \<longleftrightarrow> \<not> create_table_at s"
  by (auto simp only: create_table_re_unfold opt_name_Nil create_table_at_def name_follows_def
        Let_def split: if_splits)

lemma opt_name_hd:
  assumes "r \<noteq> []" "isword (hd r)"
  shows "\<exists>rest ms.
           rmatch (Seq (Opt (Seq (Lit ''IF NOT EXISTS'') (Plus Space))) (Group (Plus Word))) r
           = ([if if_not_exists_at r then takeWhile isword (dropWhile isspace (drop 13 r))
               else takeWhile isword r], rest) # ms"
proof (cases "if_not_exists_at r")
  case True
  then have i: "imatch ''IF NOT EXISTS'' r" and n: "name_follows (drop 13 r)"
    by (simp_all add: if_not_exists_at_def)
  from n obtain ms where
    "rmatch (Group (Plus Word)) (dropWhile isspace (drop 13 r))
       = ([takeWhile isword (dropWhile isspace (drop 13 r))],
          dropWhile isword (dropWhile isspace (drop 13 r))) # ms"
    using rmatch_name_hd [of "dropWhile isspace (drop 13 r)"]
    by (auto simp: name_follows_def Let_def)
  with i n True show ?thesis
    by (simp only: rmatch_opt_name) (simp add: name_follows_def)
next
  case False
  have e: "(if imatch ''IF NOT EXISTS'' r \<and> drop 13 r \<noteq> [] \<and> isspace (hd (drop 13 r))
            then rmatch (Group (Plus Word)) (dropWhile isspace (drop 13 r)) else []) = []"
    using False
    by (auto simp only: if_not_exists_at_def name_follows_def Let_def rmatch_name_Nil
          split: if_splits)
  obtain ms where "rmatch (Group (Plus Word)) r = ([takeWhile isword r], dropWhile isword r) # ms"
    using rmatch_name_hd [OF assms] by blast
  with False e show ?thesis
    by (simp only: rmatch_opt_name) simp
qed

lemma create_table_re_hd:
  assumes "create_table_at s"
  shows "\<exists>rest ms. rmatch create_table_re s = ([table_name_at s], rest) # ms"
proof -
  let ?r = "dropWhile isspace (drop 12 s)"
  from assms have i: "imatch ''CREATE TABLE'' s" and d: "drop 12 s \<noteq> []"
    and h: "isspace (hd (drop 12 s))" and r: "?r \<noteq> []" "isword (hd ?r)"
    by (simp_all add: create_table_at_def name_follows_def Let_def)
  from opt_name_hd [OF r] i d h show ?thesis
    by (simp only: create_table_re_unfold table_name_at_def Let_def) simp
qed

lemma table_name_at_nonempty:
  assumes "create_table_at s"
  shows "table_name_at s \<noteq> []"
proof -
  let ?r = "dropWhile isspace (drop 12 s)"
  from assms have r: "?r \<noteq> []" "isword (hd ?r)"
    by (simp_all add: create_table_at_def name_follows_def Let_def)
  have w: "takeWhile isword x \<noteq> []" if "x \<noteq> []" "isword (hd x)" for x
    using that by (cases x) auto
  show ?thesis
  proof (cases "if_not_exists_at ?r")
    case True
    then have "name_follows (drop 13 ?r)" by (simp add: if_not_exists_at_def)
    then have "takeWhile isword (dropWhile isspace (drop 13 ?r)) \<noteq> []"
      by (intro w) (simp_all add: name_follows_def Let_def)
    with True show ?thesis by (simp add: table_name_at_def Let_def)
  next
    case False
    with w [OF r] show ?thesis by (simp add: table_name_at_def Let_def)
  qed
qed

section \<open>Properties of table-name inference\<close>

lemma re_match_create_table_None: "re_match create_table_re s = None \<longleftrightarrow> \<not> create_table_at s"
  using create_table_re_Nil [of s] by (cases "rmatch create_table_re s") (auto simp: re_match_def)

lemma re_match_create_table_Some:
  assumes "create_table_at s"
  shows "\<exists>rest. re_match create_table_re s = Some ([table_name_at s], rest)"
  using create_table_re_hd [OF assms] by (auto simp: re_match_def)

lemma re_search_None:
  "\<not> mentions_create_table s \<Longrightarrow> re_search create_table_re s = None"
proof (induction s)
  case Nil
  have "\<not> create_table_at []" by (simp add: create_table_at_def)
  then show ?case by (simp add: re_match_create_table_None)
next
  case (Cons x xs)
  then have "re_match create_table_re (x # xs) = None"
    by (simp add: re_match_create_table_None)
  with Cons show ?case by simp
qed

lemma re_search_skip:
  "\<not> create_table_within (length pre) (pre @ s) \<Longrightarrow> s \<noteq> [] \<Longrightarrow>
   re_search create_table_re (pre @ s) = re_search create_table_re s"
proof (induction pre)
  case Nil
  show ?case by simp
next
  case (Cons x pre)
  then have "re_match create_table_re (x # pre @ s) = None"
    by (simp add: re_match_create_table_None)
  with Cons show ?case by simp
qed

lemma re_search_at:
  assumes "create_table_at s"
  shows "re_search create_table_re s = re_match create_table_re s"
proof (cases s)
  case Nil
  then show ?thesis by simp
next
  case (Cons x xs)
  with re_match_create_table_Some [OF assms] show ?thesis by auto
qed

lemma infer_at:
  assumes "\<not> create_table_within (length pre) (pre @ s)" "create_table_at s"
  shows "infer_table_name_from_sql (pre @ s) = table_name_at s"
proof -
  have "s \<noteq> []" using assms(2) by (auto simp: create_table_at_def)
  with assms(1) have "re_search create_table_re (pre @ s) = re_match create_table_re s"
    by (simp add: re_search_skip re_search_at [OF assms(2)])
  with re_match_create_table_Some [OF assms(2)] show ?thesis
    by (auto simp: infer_table_name_from_sql_def group1_def)
qed

lemma mentions_split:
  "mentions_create_table s \<Longrightarrow>
   \<exists>pre r. s = pre @ r \<and> create_table_at r \<and> \<not> create_table_within (length pre) s"
proof (induction s)
  case Nil
  then show ?case by simp
next
  case (Cons x xs)
  show ?case
  proof (cases "create_table_at (x # xs)")
    case True
    then have "x # xs = [] @ (x # xs) \<and> create_table_at (x # xs)
               \<and> \<not> create_table_within (length ([] :: string)) (x # xs)" by simp
    then show ?thesis by blast
  next
    case False
    with Cons obtain pre r where "xs = pre @ r" "create_table_at r"
      "\<not> create_table_within (length pre) xs" by auto
    with False have "x # xs = (x # pre) @ r \<and> create_table_at r
               \<and> \<not> create_table_within (length (x # pre)) (x # xs)" by simp
    then show ?thesis by blast
  qed
qed

lemma imatch_prefix:
  assumes "lower kw = lower w"
  shows "imatch w (kw @ x)"
proof -
  have "length (lower kw) = length (lower w)" using assms by simp
  then have l: "length kw = length w" by (simp add: lower_def)
  then show ?thesis using assms by (simp add: imatch_iff)
qed

lemma dropWhile_space_name:
  assumes "list_all isspace ws" "x \<noteq> []" "isword (hd x)"
  shows "dropWhile isspace (ws @ x) = x"
proof -
  have "\<not> isspace (hd x)" using assms(3) space_not_word by blast
  with assms(2) have "dropWhile isspace x = x" by (cases x) auto
  moreover have "dropWhile isspace (ws @ x) = dropWhile isspace x"
    using assms(1) by (intro dropWhile_append2) (simp add: list_all_iff)
  ultimately show ?thesis by simp
qed

lemma name_follows_space_name:
  assumes "ws \<noteq> []" "list_all isspace ws" "x \<noteq> []" "isword (hd x)"
  shows "name_follows (ws @ x)"
proof -
  have "isspace (hd (ws @ x))" using assms(1,2) by (cases ws) auto
  then show ?thesis
    using assms by (simp add: name_follows_def dropWhile_space_name)
qed

lemma takeWhile_word:
  assumes "list_all isword t" "rest = [] \<or> \<not> isword (hd rest)"
  shows "takeWhile isword (t @ rest) = t"
proof -
  have "takeWhile isword rest = []" using assms(2) by (cases rest) auto
  moreover have "takeWhile isword (t @ rest) = t @ takeWhile isword rest"
    using assms(1) by (intro takeWhile_append2) (simp add: list_all_iff)
  ultimately show ?thesis by simp
qed

lemma lower_keywords:
  "lower ''CREATE TABLE'' = ''create table''" "lower ''IF NOT EXISTS'' = ''if not exists''"
  by code_simp+

lemma lower_length: "lower a = b \<Longrightarrow> length a = length b"
  by (auto simp: lower_def)

lemma statement_shape:
  assumes kw: "lower kw = ''create table''"
    and ws: "ws \<noteq> []" "list_all isspace ws"
    and ine: "(ine = [] \<and> ws2 = [] \<and> \<not> if_not_exists_at (t @ rest))
              \<or> (lower ine = ''if not exists'' \<and> ws2 \<noteq> [] \<and> list_all isspace ws2)"
    and t: "t \<noteq> []" "list_all isword t" "rest = [] \<or> \<not> isword (hd rest)"
  shows "create_table_at (kw @ ws @ ine @ ws2 @ t @ rest)
         \<and> table_name_at (kw @ ws @ ine @ ws2 @ t @ rest) = t"
proof -
  let ?x = "t @ rest"
  have x: "?x \<noteq> []" "isword (hd ?x)" using t(1,2) by (cases t; simp)+
  have lk: "length kw = 12" using lower_length [OF kw] by simp
  have ik: "imatch ''CREATE TABLE'' (kw @ y)" for y
    by (rule imatch_prefix) (simp add: kw lower_keywords)
  from ine show ?thesis
  proof
    assume a: "ine = [] \<and> ws2 = [] \<and> \<not> if_not_exists_at (t @ rest)"
    have "create_table_at (kw @ ws @ ?x)"
      using ik lk name_follows_space_name [OF ws x] by (simp add: create_table_at_def)
    moreover have "table_name_at (kw @ ws @ ?x) = t"
      using a lk dropWhile_space_name [OF ws(2) x] takeWhile_word [OF t(2,3)]
      by (simp add: table_name_at_def)
    ultimately show ?thesis using a by simp
  next
    assume b: "lower ine = ''if not exists'' \<and> ws2 \<noteq> [] \<and> list_all isspace ws2"
    let ?y = "ine @ ws2 @ ?x"
    have li: "length ine = 13" using b lower_length [of ine "''if not exists''"] by simp
    have ii: "imatch ''IF NOT EXISTS'' ?y"
      by (rule imatch_prefix) (simp add: b lower_keywords)
    have y: "?y \<noteq> []" "isword (hd ?y)" using ine_hd [OF ii] by simp_all
    have n2: "name_follows (ws2 @ ?x)" using b name_follows_space_name [OF _ _ x] by simp
    have d2: "dropWhile isspace (ws2 @ ?x) = ?x" using b dropWhile_space_name [OF _ x] by simp
    have ie: "if_not_exists_at ?y" using ii li n2 by (simp add: if_not_exists_at_def)
    have "create_table_at (kw @ ws @ ?y)"
      using ik lk name_follows_space_name [OF ws y] by (simp add: create_table_at_def)
    moreover have "table_name_at (kw @ ws @ ?y) = t"
      using lk li ie d2 dropWhile_space_name [OF ws(2) y] takeWhile_word [OF t(2,3)]
      by (simp add: table_name_at_def)
    ultimately show ?thesis by simp
  qed
qed

text \<open>
  C10, as stated, fails. The text below contains no \<open>CREATE TABLE\<close> statement, only a comment
  and an \<open>INSERT\<close>; the pattern is searched in the raw text, finds the words of the comment
  and the inferred name is \<open>for\<close>.
\<close>

theorem comment_names_the_table:
  "infer_table_name_from_sql
     (''-- create table for users'' @ newline @ ''INSERT INTO users VALUES (1);'') = ''for''"
  by code_simp

text \<open>
  C10, amended. Inference is total and never returns the empty string. It returns
  \<open>uploaded_table\<close> for every text in which the words \<open>CREATE TABLE\<close> (in any case, with one
  space), followed by whitespace and a word character, occur nowhere, be it in a statement,
  a comment or a string literal.
\<close>

theorem infer_default_without_create_table:
  "infer_table_name_from_sql text \<noteq> []
   \<and> (\<not> mentions_create_table text \<longrightarrow> infer_table_name_from_sql text = ''uploaded_table'')"
proof (cases "mentions_create_table text")
  case False
  then show ?thesis by (simp add: infer_table_name_from_sql_def re_search_None)
next
  case True
  then obtain pre r where "text = pre @ r" "create_table_at r"
    "\<not> create_table_within (length pre) text"
    using mentions_split by blast
  then show ?thesis using True infer_at table_name_at_nonempty by auto
qed

theorem infer_default_without_create_table_witness:
  "\<not> mentions_create_table ''INSERT INTO t VALUES (1); -- create table''
   \<and> infer_table_name_from_sql ''INSERT INTO t VALUES (1); -- create table'' = ''uploaded_table''
   \<and> infer_table_name_from_sql ''INSERT INTO t VALUES (1); -- create table'' \<noteq> []"
proof -
  have "\<not> mentions_create_table ''INSERT INTO t VALUES (1); -- create table''"
    by code_simp
  with infer_default_without_create_table [of "''INSERT INTO t VALUES (1); -- create table''"]
  show ?thesis by blast
qed

text \<open>
  C6, as stated, fails. In the first text the first \<open>CREATE TABLE\<close> statement names \<open>users\<close>,
  but the words occur earlier in a comment and the inferred name is \<open>for\<close>. In the second
  text the statement has two spaces between \<open>CREATE\<close> and \<open>TABLE\<close>; the pattern has one, and
  the default name is returned.
\<close>

theorem create_table_statement_missed:
  "infer_table_name_from_sql
     (''-- create table for users'' @ newline @ ''CREATE TABLE users (id INT);'') = ''for''
   \<and> infer_table_name_from_sql ''CREATE  TABLE users (id INT);'' = ''uploaded_table''"
  by code_simp

text \<open>
  C6, amended. Let the text be \<open>pre\<close>, then the words \<open>CREATE TABLE\<close> in any case with one
  space, whitespace, optionally the words \<open>IF NOT EXISTS\<close> in any case and whitespace, then a
  run \<open>t\<close> of word characters that ends at the end of the text or before a character that
  is not a word character. When no occurrence of \<open>CREATE TABLE\<close>, whitespace and a word
  character begins inside \<open>pre\<close> (occurrences in comments count), inference returns \<open>t\<close>,
  whatever follows. Without the \<open>IF NOT EXISTS\<close> clause, \<open>t\<close> must not itself be the \<open>IF\<close> of
  such a clause.
\<close>

theorem infer_names_first_create_table:
  assumes "\<not> create_table_within (length pre) (pre @ kw @ ws @ ine @ ws2 @ t @ rest)"
    and "lower kw = ''create table''"
    and "ws \<noteq> []" and "list_all isspace ws"
    and "(ine = [] \<and> ws2 = [] \<and> \<not> if_not_exists_at (t @ rest))
         \<or> (lower ine = ''if not exists'' \<and> ws2 \<noteq> [] \<and> list_all isspace ws2)"
    and "t \<noteq> []" and "list_all isword t" and "rest = [] \<or> \<not> isword (hd rest)"
  shows "infer_table_name_from_sql (pre @ kw @ ws @ ine @ ws2 @ t @ rest) = t"
  using infer_at [OF assms(1)] statement_shape [OF assms(2-8)] by simp

theorem infer_names_first_create_table_witness:
  "infer_table_name_from_sql
     (''-- schema; '' @ ''Create Table'' @ ''  '' @ ''if not exists'' @ '' '' @ ''users''
        @ '' (id INT); CREATE TABLE b (x INT);'') = ''users''
   \<and> infer_table_name_from_sql
     (''-- schema; '' @ ''CREATE TABLE'' @ '' '' @ [] @ [] @ ''users''
        @ ''(id INT); CREATE TABLE b (x INT);'') = ''users''"
proof -
  have 1: "\<not> create_table_within (length ''-- schema; '')
            (''-- schema; '' @ ''Create Table'' @ ''  '' @ ''if not exists'' @ '' '' @ ''users''
               @ '' (id INT); CREATE TABLE b (x INT);'')"
    by code_simp
  have 2: "lower ''Create Table'' = ''create table''" by code_simp
  have 3: "''  '' \<noteq> [] \<and> list_all isspace ''  ''" by code_simp
  have 4: "lower ''if not exists'' = ''if not exists'' \<and> '' '' \<noteq> [] \<and> list_all isspace '' ''"
    by code_simp
  have 5: "''users'' \<noteq> [] \<and> list_all isword ''users''" by code_simp
  have 6: "\<not> isword (hd '' (id INT); CREATE TABLE b (x INT);'')" by code_simp
  have a: "infer_table_name_from_sql
     (''-- schema; '' @ ''Create Table'' @ ''  '' @ ''if not exists'' @ '' '' @ ''users''
        @ '' (id INT); CREATE TABLE b (x INT);'') = ''users''"
    using 1 2 3 4 5 6 by (intro infer_names_first_create_table) blast+
  have 7: "\<not> create_table_within (length ''-- schema; '')
            (''-- schema; '' @ ''CREATE TABLE'' @ '' '' @ [] @ [] @ ''users''
               @ ''(id INT); CREATE TABLE b (x INT);'')"
    by code_simp
  have 8: "lower ''CREATE TABLE'' = ''create table''" by code_simp
  have 9: "'' '' \<noteq> [] \<and> list_all isspace '' ''" by code_simp
  have 10: "\<not> if_not_exists_at (''users'' @ ''(id INT); CREATE TABLE b (x INT);'')" by code_simp
  have 11: "\<not> isword (hd ''(id INT); CREATE TABLE b (x INT);'')" by code_simp
  have b: "infer_table_name_from_sql
     (''-- schema; '' @ ''CREATE TABLE'' @ '' '' @ [] @ [] @ ''users''
        @ ''(id INT); CREATE TABLE b (x INT);'') = ''users''"
    using 7 8 9 5 10 11 by (intro infer_names_first_create_table) blast+
  from a b show ?thesis by blast
qed

section \<open>Properties of the extraction of columns\<close>



















section \<open>Properties of the translation\<close>









end
